theory Spec2Isabelle
  imports Complex_Main "HOL-Library.Word"
begin

section \<open>SimplePager: data model\<close>

text \<open>
  The embedding follows \<^verbatim>\<open>src/osgEarthUtil/SimplePager.cpp\<close>. C++ \<^verbatim>\<open>unsigned\<close> is a
  32-bit word (subtraction and comparison are the unsigned ones of the machine).
  The bounding spheres of OpenSceneGraph hold single-precision values, and every
  operation on them is rounded to single precision. The coordinates of the sampled
  points (double precision in the code), the comparison of two radii and the product
  \<^verbatim>\<open>tileRadius * _rangeFactor\<close> are taken exactly, and \<^verbatim>\<open>FLT_MAX\<close> is the largest finite
  single-precision value.
  A pointer that may be null is an \<open>option\<close>; dereferencing a null pointer is a fault.
\<close>

type_synonym u32 = "32 word"

type_synonym addr = nat

datatype fault = NullPointerDereference | IndeterminateRead

subsection \<open>Frame counter and progress handle\<close>

text \<open>
  \<^verbatim>\<open>struct ProgressMaster { unsigned _frame; ... }\<close>. The pager owns its master; a
  progress callback only observes it (\<^verbatim>\<open>osg::observer_ptr\<close>). The store maps the address
  of every master that is still alive to its state; a destroyed master has no entry.
\<close>

record ProgressMaster =
  frame :: u32


text \<open>
  \<^verbatim>\<open>struct MyProgressCallback { unsigned _lastFrame; osg::observer_ptr<ProgressMaster> _master; }\<close>.
  The constructor assigns \<^verbatim>\<open>_master\<close> only, so \<^verbatim>\<open>_lastFrame\<close> holds no value (\<open>None\<close>)
  until \<^verbatim>\<open>touch\<close> writes it.
\<close>

record MyProgressCallback =
  lastFrame :: "u32 option"
  master :: "addr option"

definition MyProgressCallback_new :: "addr option \<Rightarrow> MyProgressCallback" where
  "MyProgressCallback_new m = \<lparr>lastFrame = None, master = m\<rparr>"



text \<open>\<^verbatim>\<open>if ( stamp ) _lastFrame = stamp->getFrameNumber();\<close>\<close>

definition touch :: "u32 option \<Rightarrow> MyProgressCallback \<Rightarrow> MyProgressCallback" where
  "touch stamp h = (case stamp of None \<Rightarrow> h | Some n \<Rightarrow> h\<lparr>lastFrame := Some n\<rparr>)"

text \<open>
  \<^verbatim>\<open>ProgressMaster::operator()\<close>:
  \<^verbatim>\<open>_frame = nv->getFrameStamp() ? nv->getFrameStamp()->getFrameNumber() : 0u;\<close>
\<close>

definition tick :: "u32 option \<Rightarrow> ProgressMaster \<Rightarrow> ProgressMaster" where
  "tick stamp m = m\<lparr>frame := (case stamp of None \<Rightarrow> 0 | Some n \<Rightarrow> n)\<rparr>"

subsection \<open>Single precision\<close>

text \<open>
  \<open>float32 x\<close> is the value of the binary32 format nearest to the real \<open>x\<close>, ties going to
  the even mantissa: 24 significant bits, and the spacing \<open>2^-149\<close> below \<open>2^-126\<close>.
  Magnitudes that the format turns into an infinity are outside the model. The
  arithmetic of \<^verbatim>\<open>float\<close> is the exact operation followed by this rounding, and
  \<^verbatim>\<open>sqrtf\<close> is the rounded square root.
\<close>

definition round_even :: "real \<Rightarrow> int" where
  "round_even q =
     (let f = \<lfloor>q\<rfloor>; d = q - of_int f
      in if d < 1 / 2 then f else if 1 / 2 < d then f + 1 else if even f then f else f + 1)"

definition float32 :: "real \<Rightarrow> real" where
  "float32 x =
     (if x = 0 then 0
      else (let e = max \<lfloor>log 2 \<bar>x\<bar>\<rfloor> (- 126);
                u = 2 powr (of_int e - 23)
            in of_int (round_even (x / u)) * u))"

definition fadd :: "real \<Rightarrow> real \<Rightarrow> real" where
  "fadd a b = float32 (a + b)"

definition fsub :: "real \<Rightarrow> real \<Rightarrow> real" where
  "fsub a b = float32 (a - b)"

definition fmul :: "real \<Rightarrow> real \<Rightarrow> real" where
  "fmul a b = float32 (a * b)"

definition fdiv :: "real \<Rightarrow> real \<Rightarrow> real" where
  "fdiv a b = float32 (a / b)"

definition fsqrt :: "real \<Rightarrow> real" where
  "fsqrt x = float32 (sqrt x)"








subsection \<open>Vectors and bounding spheres\<close>

text \<open>
  \<^verbatim>\<open>osg::Vec3d\<close>, \<^verbatim>\<open>osg::Vec3f\<close> and \<^verbatim>\<open>osg::BoundingSphere\<close> belong to OpenSceneGraph. A
  world point is a \<^verbatim>\<open>Vec3d\<close>; the sphere keeps a \<^verbatim>\<open>Vec3f\<close> centre and a \<^verbatim>\<open>float\<close> radius.
  The operations the pager calls are written out after their library definitions:
  \<^verbatim>\<open>Vec3f::length\<close> is \<^verbatim>\<open>sqrtf(x*x + y*y + z*z)\<close>, and \<^verbatim>\<open>expandBy\<close> converts the point to
  single precision, and where it lies outside moves the centre half-way towards it and
  grows the radius by the same amount:
  \<^verbatim>\<open>dv = Vec3f(v) - _center; r = dv.length();
  if (r > _radius) { dr = (r - _radius) * 0.5; _center += dv * (dr / r); _radius += dr; }\<close>.
  A default-constructed sphere is invalid (radius \<open>-1\<close>), and expanding an invalid sphere
  yields the point itself with radius 0.
\<close>

datatype Vec3d = Vec3d (vx: real) (vy: real) (vz: real)

datatype Vec3f = Vec3f (fx: real) (fy: real) (fz: real)

fun to_Vec3f :: "Vec3d \<Rightarrow> Vec3f" where
  "to_Vec3f (Vec3d x y z) = Vec3f (float32 x) (float32 y) (float32 z)"

fun Vec3f_minus :: "Vec3f \<Rightarrow> Vec3f \<Rightarrow> Vec3f" where
  "Vec3f_minus (Vec3f a b c) (Vec3f d e f) = Vec3f (fsub a d) (fsub b e) (fsub c f)"

fun Vec3f_plus :: "Vec3f \<Rightarrow> Vec3f \<Rightarrow> Vec3f" where
  "Vec3f_plus (Vec3f a b c) (Vec3f d e f) = Vec3f (fadd a d) (fadd b e) (fadd c f)"

fun Vec3f_scale :: "Vec3f \<Rightarrow> real \<Rightarrow> Vec3f" where
  "Vec3f_scale (Vec3f a b c) k = Vec3f (fmul a k) (fmul b k) (fmul c k)"

fun Vec3f_length :: "Vec3f \<Rightarrow> real" where
  "Vec3f_length (Vec3f a b c) = fsqrt (fadd (fadd (fmul a a) (fmul b b)) (fmul c c))"

record BoundingSphere =
  center :: Vec3f
  radius :: real

definition BoundingSphere_new :: BoundingSphere where
  "BoundingSphere_new = \<lparr>center = Vec3f 0 0 0, radius = -1\<rparr>"

definition valid :: "BoundingSphere \<Rightarrow> bool" where
  "valid bs = (radius bs \<ge> 0)"

definition expandBy :: "BoundingSphere \<Rightarrow> Vec3d \<Rightarrow> BoundingSphere" where
  "expandBy bs v =
     (if valid bs then
        (let dv = Vec3f_minus (to_Vec3f v) (center bs);
             r = Vec3f_length dv
         in if r > radius bs then
              (let dr = fmul (fsub r (radius bs)) 0.5
               in \<lparr>center = Vec3f_plus (center bs) (Vec3f_scale dv (fdiv dr r)),
                   radius = fadd (radius bs) dr\<rparr>)
            else bs)
      else \<lparr>center = to_Vec3f v, radius = 0\<rparr>)"



definition FLT_MAX :: real where
  "FLT_MAX = (2 ^ 24 - 1) * 2 ^ 104"

subsection \<open>Extents, profiles and tile keys\<close>

text \<open>
  The profile mathematics is supplied from outside the pager. A spatial reference is
  used for one thing only, carrying a point \<open>(x, y)\<close> at altitude 0 to world coordinates
  (\<^verbatim>\<open>GeoPoint(srs, x, y, 0, ALTMODE_ABSOLUTE).transform(wgs84).toWorld(world)\<close>), so it is
  that function. An extent gives what its accessors return, and a profile the extent of
  each tile.
\<close>

type_synonym SpatialReference = "real \<Rightarrow> real \<Rightarrow> Vec3d"

record GeoExtent =
  getSRS :: SpatialReference
  xMin :: real
  yMin :: real
  width :: real
  height :: real

record Profile =
  tileExtent :: "u32 \<Rightarrow> u32 \<Rightarrow> u32 \<Rightarrow> GeoExtent"

record TileKey =
  getLOD :: u32
  getTileX :: u32
  getTileY :: u32
  profile :: Profile

definition getExtent :: "TileKey \<Rightarrow> GeoExtent" where
  "getExtent key = tileExtent (profile key) (getLOD key) (getTileX key) (getTileY key)"

text \<open>
  Modelled from the spec: \<^verbatim>\<open>TileKey::createChildKey\<close> is declared in \<^verbatim>\<open>osgEarth/TileKey\<close>,
  which is not among the sources. The four children of \<open>(L, X, Y)\<close> are
  \<open>(L+1, 2X+dx, 2Y+dy)\<close> for \<open>dx, dy \<in> {0, 1}\<close>, in the canonical order
  \<open>(0,0), (1,0), (0,1), (1,1)\<close> for quadrants 0 to 3.
\<close>

definition createChildKey :: "TileKey \<Rightarrow> nat \<Rightarrow> TileKey" where
  "createChildKey key quadrant =
     \<lparr>getLOD = getLOD key + 1,
      getTileX = 2 * getTileX key + (if quadrant = 1 \<or> quadrant = 3 then 1 else 0),
      getTileY = 2 * getTileY key + (if quadrant = 2 \<or> quadrant = 3 then 1 else 0),
      profile = profile key\<rparr>"

subsection \<open>Bounds estimation\<close>

text \<open>
  \<^verbatim>\<open>SimplePager::getBounds\<close>: \<^verbatim>\<open>int samples = 6;\<close> and two nested loops
  \<^verbatim>\<open>for (int c = 0; c < samples+1; c++)\<close>, \<^verbatim>\<open>for (int r = 0; r < samples+1; r++)\<close>, each
  iteration expanding the sphere by one world point. The coordinates of a sample are
  taken exactly.
\<close>

definition samples :: nat where
  "samples = 6"

definition sampleWorld :: "GeoExtent \<Rightarrow> nat \<Rightarrow> nat \<Rightarrow> Vec3d" where
  "sampleWorld extent c r =
     (let xSample = width extent / real samples;
          ySample = height extent / real samples;
          x = xMin extent + real c * xSample;
          y = yMin extent + real r * ySample
      in getSRS extent x y)"

definition getBounds_row :: "GeoExtent \<Rightarrow> BoundingSphere \<Rightarrow> nat \<Rightarrow> BoundingSphere" where
  "getBounds_row extent bs c =
     foldl (\<lambda>b r. expandBy b (sampleWorld extent c r)) bs [0..<samples + 1]"

definition getBounds :: "TileKey \<Rightarrow> BoundingSphere" where
  "getBounds key =
     (let extent = getExtent key
      in foldl (getBounds_row extent) BoundingSphere_new [0..<samples + 1])"


subsection \<open>Scene graph nodes\<close>

text \<open>
  Slot 0 of a paged node holds either what the tile builder returned, of which the pager
  reads the bound only, or the placeholder \<^verbatim>\<open>new osg::Group()\<close>, whose bound is the
  invalid sphere.
\<close>

datatype Node = Content BoundingSphere | EmptyGroup

fun getBound :: "Node \<Rightarrow> BoundingSphere" where
  "getBound (Content b) = b"
| "getBound EmptyGroup = BoundingSphere_new"

datatype 'n Group = Group (getChildren: "'n list")

text \<open>
  \<^verbatim>\<open>struct ProgressUpdater { osg::ref_ptr<MyProgressCallback> _progress; }\<close>; its constructor
  names the object and allocates the progress callback for the given master.
\<close>

record ProgressUpdater =
  progress :: MyProgressCallback

definition ProgressUpdater_new :: "addr option \<Rightarrow> ProgressUpdater" where
  "ProgressUpdater_new m = \<lparr>progress = MyProgressCallback_new m\<rparr>"

definition pagerName :: string where
  "pagerName = ''osgEarth::Util::SimplerPager::this''"

definition updaterName :: string where
  "updaterName = ''osgEarth::Util::SimplerPager::ProgressUpdater''"

type_synonym FileLocationCallback = nat

text \<open>
  The pager object: its configuration, the address of its progress master, the name
  given to it by the constructor, and the virtual \<^verbatim>\<open>createNode\<close> of the subclass, which
  may change a state of its own.
\<close>

record 's SimplePager =
  getName :: string
  getProfile :: Profile
  rangeFactor :: real
  additive_mode :: bool
  minLevel :: u32
  maxLevel :: u32
  fileLocationCallback :: "FileLocationCallback option"
  progressMaster :: addr
  createNode :: "TileKey \<Rightarrow> MyProgressCallback option \<Rightarrow> 's \<Rightarrow> Node option \<times> 's"

text \<open>
  The constructor: \<^verbatim>\<open>_rangeFactor(6.0), _additive(false), _minLevel(0), _maxLevel(30)\<close>,
  \<^verbatim>\<open>setName("osgEarth::Util::SimplerPager::this")\<close> and a new progress master.
\<close>

definition SimplePager_new ::
    "Profile \<Rightarrow> addr \<Rightarrow> (TileKey \<Rightarrow> MyProgressCallback option \<Rightarrow> 's \<Rightarrow> Node option \<times> 's)
       \<Rightarrow> 's SimplePager" where
  "SimplePager_new prof m builder =
     \<lparr>getName = pagerName, getProfile = prof, rangeFactor = 6, additive_mode = False,
      minLevel = 0, maxLevel = 30, fileLocationCallback = None, progressMaster = m,
      createNode = builder\<rparr>"

text \<open>
  \<^verbatim>\<open>osgDB::Options\<close> with its user-data container: a list of objects, looked up by name;
  \<^verbatim>\<open>getUserObject\<close> returns the first object of that name, or null.
\<close>

datatype 's UserObject =
    PagerObject "'s SimplePager"
  | UpdaterObject ProgressUpdater
  | OtherObject string

fun objectName :: "'s UserObject \<Rightarrow> string" where
  "objectName (PagerObject p) = getName p"
| "objectName (UpdaterObject u) = updaterName"
| "objectName (OtherObject n) = n"

record 's Options =
  userDataContainer :: "'s UserObject list option"
  optionsFileLocationCallback :: "FileLocationCallback option"

definition Options_new :: "'s Options" where
  "Options_new = \<lparr>userDataContainer = None, optionsFileLocationCallback = None\<rparr>"

definition addUserObject :: "'s UserObject \<Rightarrow> 's Options \<Rightarrow> 's Options" where
  "addUserObject obj opts =
     opts\<lparr>userDataContainer :=
       Some ((case userDataContainer opts of None \<Rightarrow> [] | Some objs \<Rightarrow> objs) @ [obj])\<rparr>"

definition getUserObject :: "string \<Rightarrow> 's UserObject list \<Rightarrow> 's UserObject option" where
  "getUserObject name objs = find (\<lambda>obj. objectName obj = name) objs"

text \<open>\<^verbatim>\<open>dynamic_cast\<close> of a looked-up object: null for a null pointer or another class.\<close>

fun as_SimplePager :: "'s UserObject option \<Rightarrow> 's SimplePager option" where
  "as_SimplePager (Some (PagerObject p)) = Some p"
| "as_SimplePager _ = None"

fun as_ProgressUpdater :: "'s UserObject option \<Rightarrow> ProgressUpdater option" where
  "as_ProgressUpdater (Some (UpdaterObject u)) = Some u"
| "as_ProgressUpdater _ = None"

text \<open>
  \<^verbatim>\<open>osg::PagedLOD\<close>, with the state its setters write: centre and radius, the children,
  and per slot the file name and the visibility range \<open>(min, max)\<close> that was set.
\<close>

record 's PagedLOD =
  getCenter :: Vec3f
  getRadius :: real
  children :: "Node list"
  fileNames :: "nat \<rightharpoonup> string"
  ranges :: "nat \<rightharpoonup> real \<times> real"
  cullCallbacks :: "ProgressUpdater list"
  databaseOptions :: "'s Options option"

definition PagedLOD_new :: "'s PagedLOD" where
  "PagedLOD_new =
     \<lparr>getCenter = Vec3f 0 0 0, getRadius = -1, children = [], fileNames = Map.empty,
      ranges = Map.empty, cullCallbacks = [], databaseOptions = None\<rparr>"

definition setRange :: "nat \<Rightarrow> real \<Rightarrow> real \<Rightarrow> 's PagedLOD \<Rightarrow> 's PagedLOD" where
  "setRange childNo lo hi plod = plod\<lparr>ranges := (ranges plod)(childNo \<mapsto> (lo, hi))\<rparr>"

definition setFileName :: "nat \<Rightarrow> string \<Rightarrow> 's PagedLOD \<Rightarrow> 's PagedLOD" where
  "setFileName childNo uri plod = plod\<lparr>fileNames := (fileNames plod)(childNo \<mapsto> uri)\<rparr>"

definition addChild :: "Node \<Rightarrow> 's PagedLOD \<Rightarrow> 's PagedLOD" where
  "addChild n plod = plod\<lparr>children := children plod @ [n]\<rparr>"

definition addCullCallback :: "ProgressUpdater \<Rightarrow> 's PagedLOD \<Rightarrow> 's PagedLOD" where
  "addCullCallback cb plod = plod\<lparr>cullCallbacks := cullCallbacks plod @ [cb]\<rparr>"

text \<open>
  A slot is shown at a viewer distance inside its half-open range, as the traversal of
  \<^verbatim>\<open>osg::LOD\<close> tests it: \<^verbatim>\<open>min <= distance && distance < max\<close>.
\<close>

definition visible :: "'s PagedLOD \<Rightarrow> nat \<Rightarrow> real \<Rightarrow> bool" where
  "visible plod slot d =
     (case ranges plod slot of None \<Rightarrow> False | Some (lo, hi) \<Rightarrow> lo \<le> d \<and> d < hi)"

subsection \<open>Tile identifiers\<close>

text \<open>An unsigned value written to a \<^verbatim>\<open>std::stringstream\<close>: its decimal digits.\<close>

definition digit_char :: "nat \<Rightarrow> char" where
  "digit_char d = char_of (48 + d)"

function to_digits :: "nat \<Rightarrow> string" where
  "to_digits n = (if n < 10 then [digit_char n] else to_digits (n div 10) @ [digit_char (n mod 10)])"
  by pat_completeness auto
termination
  by (relation "measure id") auto

definition show_unsigned :: "u32 \<Rightarrow> string" where
  "show_unsigned w = to_digits (unat w)"

definition pseudo_extension :: string where
  "pseudo_extension = ''osgearth_pseudo_simple''"

text \<open>
  \<^verbatim>\<open>buf << key.getLevelOfDetail() << "_" << key.getTileX() << "_" << key.getTileY()
      << ".osgearth_pseudo_simple";\<close>
\<close>

definition key_uri :: "TileKey \<Rightarrow> string" where
  "key_uri key =
     show_unsigned (getLOD key) @ ''_'' @ show_unsigned (getTileX key) @ ''_'' @
     show_unsigned (getTileY key) @ ''.'' @ pseudo_extension"

text \<open>
  \<^verbatim>\<open>sscanf(uri.c_str(), "%d_%d_%d.%*s", &lod, &x, &y)\<close>. A \<^verbatim>\<open>%d\<close> skips white space, takes
  an optional sign and then at least one decimal digit; a literal of the format must match
  the next character. The scan stops at the first failure, and a variable that was not
  assigned keeps no value. The converted number is stored into an \<^verbatim>\<open>unsigned\<close>, that is
  modulo \<open>2^32\<close>.
\<close>

definition isspace :: "char \<Rightarrow> bool" where
  "isspace c = (c \<in> set [CHR '' '', CHR 0x09, CHR 0x0A, CHR 0x0B, CHR 0x0C, CHR 0x0D])"

definition isdigit :: "char \<Rightarrow> bool" where
  "isdigit c = (48 \<le> (of_char c :: nat) \<and> (of_char c :: nat) \<le> 57)"

fun scan_digits :: "nat \<Rightarrow> string \<Rightarrow> nat \<times> string" where
  "scan_digits acc [] = (acc, [])"
| "scan_digits acc (c # cs) =
     (if isdigit c then scan_digits (10 * acc + (of_char c - 48)) cs else (acc, c # cs))"

definition scan_sign :: "string \<Rightarrow> bool \<times> string" where
  "scan_sign s =
     (case s of
        [] \<Rightarrow> (False, [])
      | c # cs \<Rightarrow>
          if c = CHR ''-'' then (True, cs)
          else if c = CHR ''+'' then (False, cs)
          else (False, s))"

definition scan_d :: "string \<Rightarrow> (int \<times> string) option" where
  "scan_d s =
     (let (neg, t) = scan_sign (dropWhile isspace s)
      in case t of
           [] \<Rightarrow> None
         | c # cs \<Rightarrow>
             if isdigit c then
               (let (n, rest) = scan_digits 0 t
                in Some (if neg then - int n else int n, rest))
             else None)"

definition scan_literal :: "char \<Rightarrow> string \<Rightarrow> string option" where
  "scan_literal c s = (case s of [] \<Rightarrow> None | d # ds \<Rightarrow> if d = c then Some ds else None)"

definition sscanf_key :: "string \<Rightarrow> u32 option \<times> u32 option \<times> u32 option" where
  "sscanf_key uri =
     (case scan_d uri of
        None \<Rightarrow> (None, None, None)
      | Some (l, r1) \<Rightarrow>
          (case scan_literal CHR ''_'' r1 of
             None \<Rightarrow> (Some (word_of_int l), None, None)
           | Some r2 \<Rightarrow>
               (case scan_d r2 of
                  None \<Rightarrow> (Some (word_of_int l), None, None)
                | Some (x, r3) \<Rightarrow>
                    (case scan_literal CHR ''_'' r3 of
                       None \<Rightarrow> (Some (word_of_int l), Some (word_of_int x), None)
                     | Some r4 \<Rightarrow>
                         (case scan_d r4 of
                            None \<Rightarrow> (Some (word_of_int l), Some (word_of_int x), None)
                          | Some (y, r5) \<Rightarrow>
                              (Some (word_of_int l), Some (word_of_int x),
                               Some (word_of_int y)))))))"

text \<open>
  \<^verbatim>\<open>osgDB::getLowerCaseFileExtension\<close>: the text after the last dot, empty when there is no
  dot or a path separator follows it, in lower case. The loader accepts the one
  extension it registered with \<^verbatim>\<open>supportsExtension\<close>.
\<close>

definition getFileExtension :: "string \<Rightarrow> string" where
  "getFileExtension fileName =
     (let suffix = rev (takeWhile (\<lambda>c. c \<noteq> CHR ''.'') (rev fileName))
      in if CHR ''.'' \<notin> set fileName \<or> CHR ''/'' \<in> set suffix \<or> CHR 0x5C \<in> set suffix
         then [] else suffix)"

definition tolower :: "char \<Rightarrow> char" where
  "tolower c =
     (if 65 \<le> (of_char c :: nat) \<and> (of_char c :: nat) \<le> 90
      then char_of (of_char c + 32 :: nat) else c)"

definition getLowerCaseFileExtension :: "string \<Rightarrow> string" where
  "getLowerCaseFileExtension fileName = map tolower (getFileExtension fileName)"

definition acceptsExtension :: "string \<Rightarrow> bool" where
  "acceptsExtension ext = (map tolower ext = pseudo_extension)"

subsection \<open>The pager\<close>

text \<open>
  \<^verbatim>\<open>SimplePager::createPagedNode\<close>. The result is a pointer, which \<^verbatim>\<open>loadKey\<close> tests, so it
  is an option here. The options object is shown with the file location callback already
  installed when it is handed to the node (the source installs it through the shared
  pointer just afterwards).
\<close>

definition createPagedNode ::
    "'s SimplePager \<Rightarrow> TileKey \<Rightarrow> MyProgressCallback option \<Rightarrow> 's
       \<Rightarrow> 's PagedLOD option \<times> 's" where
  "createPagedNode this key prog s =
     (let tileBounds0 = getBounds key;
          tileRadius0 = radius tileBounds0;
          hasChildren0 = (getLOD key < maxLevel this);
          build = (minLevel this \<le> getLOD key);
          (node0, s') = (if build then createNode this key prog s else (None, s));
          tileBounds = (case node0 of Some n \<Rightarrow> getBound n | None \<Rightarrow> tileBounds0);
          hasChildren = (if build \<and> node0 = None then False else hasChildren0);
          node = (case node0 of Some n \<Rightarrow> n | None \<Rightarrow> EmptyGroup);
          tileRadius = max (radius tileBounds) tileRadius0;
          plod = addChild node
                   (PagedLOD_new\<lparr>getCenter := center tileBounds, getRadius := tileRadius\<rparr>)
      in if hasChildren then
           (let uri = key_uri key;
                plod1 = setFileName 1 uri plod;
                progressUpdater = ProgressUpdater_new (Some (progressMaster this));
                plod2 = addCullCallback progressUpdater plod1;
                options = addUserObject (UpdaterObject progressUpdater)
                            (addUserObject (PagerObject this) Options_new);
                options' = (case fileLocationCallback this of
                              None \<Rightarrow> options
                            | Some flc \<Rightarrow> options\<lparr>optionsFileLocationCallback := Some flc\<rparr>);
                plod3 = plod2\<lparr>databaseOptions := Some options'\<rparr>;
                minRange = tileRadius * rangeFactor this
            in if \<not> additive_mode this then
                 (Some (setRange 1 0 minRange (setRange 0 minRange FLT_MAX plod3)), s')
               else
                 (Some (setRange 1 0 minRange (setRange 0 0 FLT_MAX plod3)), s'))
         else
           (Some (setRange 0 0 FLT_MAX plod), s'))"

text \<open>
  \<^verbatim>\<open>SimplePager::loadKey\<close>: the loop \<^verbatim>\<open>for (unsigned int i = 0; i < 4; i++)\<close> adds every
  non-null paged node of a child key to the group, and the group is returned when it has
  a child, else null. The loop is written for any function that builds the paged node of
  a key, and \<^verbatim>\<open>loadKey\<close> is its instance for \<^verbatim>\<open>createPagedNode\<close>.
\<close>

fun loadKey_loop ::
    "(TileKey \<Rightarrow> 's \<Rightarrow> 'n option \<times> 's) \<Rightarrow> TileKey \<Rightarrow> nat list \<Rightarrow> 'n list \<Rightarrow> 's
       \<Rightarrow> 'n list \<times> 's" where
  "loadKey_loop build key [] grp s = (grp, s)"
| "loadKey_loop build key (i # rest) grp s =
     (let childKey = createChildKey key i;
          (plod, s') = build childKey s
      in loadKey_loop build key rest
           (case plod of None \<Rightarrow> grp | Some p \<Rightarrow> grp @ [p]) s')"

definition loadKey_with ::
    "(TileKey \<Rightarrow> 's \<Rightarrow> 'n option \<times> 's) \<Rightarrow> TileKey \<Rightarrow> 's \<Rightarrow> 'n Group option \<times> 's" where
  "loadKey_with build key s =
     (let (grp, s') = loadKey_loop build key [0, 1, 2, 3] [] s
      in if length grp > 0 then (Some (Group grp), s') else (None, s'))"

definition loadKey ::
    "'s SimplePager \<Rightarrow> TileKey \<Rightarrow> MyProgressCallback option \<Rightarrow> 's
       \<Rightarrow> 's PagedLOD Group option \<times> 's" where
  "loadKey this key prog s = loadKey_with (\<lambda>k. createPagedNode this k prog) key s"

text \<open>The list that \<^verbatim>\<open>if (plod) group->addChild(plod)\<close> appends for one result.\<close>

fun present :: "'n option \<Rightarrow> 'n list" where
  "present None = []"
| "present (Some n) = [n]"

subsection \<open>The pseudo-loader\<close>

datatype 's ReadResult =
    FILE_NOT_HANDLED
  | ERROR_IN_READING_FILE
  | FILE_LOADED "'s PagedLOD Group option"

text \<open>
  \<^verbatim>\<open>SimplePagerPseudoLoader::readNode\<close>. The options pointer and the user-data container
  are dereferenced without a test. The scanned numbers are read only when the pager was
  found.
\<close>

definition readNode ::
    "string \<Rightarrow> 's Options option \<Rightarrow> 's \<Rightarrow> (fault + 's ReadResult) \<times> 's" where
  "readNode uri options s =
     (if \<not> acceptsExtension (getLowerCaseFileExtension uri) then (Inr FILE_NOT_HANDLED, s)
      else
        (let (lod, x, y) = sscanf_key uri
         in case options of
              None \<Rightarrow> (Inl NullPointerDereference, s)
            | Some opts \<Rightarrow>
                (case userDataContainer opts of
                   None \<Rightarrow> (Inl NullPointerDereference, s)
                 | Some objs \<Rightarrow>
                     (case as_SimplePager (getUserObject pagerName objs) of
                        None \<Rightarrow> (Inr ERROR_IN_READING_FILE, s)
                      | Some pager \<Rightarrow>
                          (let progressUpdater =
                                 as_ProgressUpdater (getUserObject updaterName objs);
                               prog = map_option progress progressUpdater
                           in case (lod, x, y) of
                                (Some l, Some tx, Some ty) \<Rightarrow>
                                  (let (g, s') =
                                         loadKey pager
                                           \<lparr>getLOD = l, getTileX = tx, getTileY = ty,
                                            profile = getProfile pager\<rparr> prog s
                                   in (Inr (FILE_LOADED g), s'))
                              | _ \<Rightarrow> (Inl IndeterminateRead, s))))))"

subsection \<open>A concrete configuration\<close>

text \<open>
  A flat profile whose every tile spans \<open>[0, 6] \<times> [0, 12]\<close> and whose spatial reference
  places \<open>(x, y)\<close> at the world point \<open>(x, y, 0)\<close>; used to instantiate the results below.
\<close>

definition flatProfile :: Profile where
  "flatProfile =
     \<lparr>tileExtent = (\<lambda>l x y. \<lparr>getSRS = (\<lambda>a b. Vec3d a b 0), xMin = 0, yMin = 0,
                                width = 6, height = 12\<rparr>)\<rparr>"

definition key_1_2_3 :: TileKey where
  "key_1_2_3 = \<lparr>getLOD = 1, getTileX = 2, getTileY = 3, profile = flatProfile\<rparr>"

definition key_30 :: TileKey where
  "key_30 = \<lparr>getLOD = 30, getTileX = 5, getTileY = 9, profile = flatProfile\<rparr>"

text \<open>A builder that returns a node of radius 100 for every tile and counts its calls.\<close>

definition countingBuilder ::
    "TileKey \<Rightarrow> MyProgressCallback option \<Rightarrow> nat \<Rightarrow> Node option \<times> nat" where
  "countingBuilder key prog calls =
     (Some (Content \<lparr>center = Vec3f 0 0 0, radius = 100\<rparr>), Suc calls)"

definition examplePager :: "nat SimplePager" where
  "examplePager = SimplePager_new flatProfile 0 countingBuilder"



text \<open>Two request contexts: one that carries the example pager, one that does not.\<close>

definition exampleContext :: "nat Options" where
  "exampleContext = addUserObject (PagerObject examplePager) Options_new"

definition emptyContext :: "nat Options" where
  "emptyContext = addUserObject (OtherObject ''unrelated'') Options_new"

section \<open>Cancellation\<close>



section \<open>Bounds estimation\<close>

subsection \<open>Rounding\<close>
















subsection \<open>Expanding a sphere\<close>




subsection \<open>The sampling loops\<close>








subsection \<open>The key (1, 2, 3) of the flat profile\<close>





















































section \<open>Paged nodes\<close>


lemma createPagedNode_Some:
  "\<exists>plod. fst (createPagedNode this key prog s) = Some plod
     \<and> length (children plod) = 1
     \<and> 0 \<in> dom (ranges plod)
     \<and> dom (fileNames plod) \<subseteq> dom (ranges plod)
     \<and> dom (fileNames plod) \<subseteq> {1}
     \<and> (dom (fileNames plod) = {} \<or> databaseOptions plod \<noteq> None)
     \<and> radius (getBounds key) \<le> getRadius plod"
proof (cases "createNode this key prog s")
  case (Pair node0 s')
  then show ?thesis
    by (cases node0)
      (auto simp: createPagedNode_def Let_def setRange_def setFileName_def addChild_def
        addCullCallback_def PagedLOD_new_def)
qed


text \<open>
  C3. For every key whose level is at least \<open>maxLevel\<close>, \<open>createPagedNode\<close> returns a
  switch node with exactly one slot: slot 0, with the range \<open>[0, FLT_MAX)\<close>, where
  \<^verbatim>\<open>FLT_MAX\<close> is the value by which the code writes the unbounded end. No file name, cull
  callback or database options are registered, so no child-load request exists.
\<close>

theorem createPagedNode_at_maxLevel:
  assumes "maxLevel this \<le> getLOD key"
  shows "\<exists>plod. fst (createPagedNode this key prog s) = Some plod
           \<and> ranges plod = [0 \<mapsto> (0, FLT_MAX)]
           \<and> length (children plod) = 1
           \<and> (\<forall>d. visible plod 0 d = (0 \<le> d \<and> d < FLT_MAX))
           \<and> (\<forall>slot d. slot \<noteq> 0 \<longrightarrow> \<not> visible plod slot d)
           \<and> fileNames plod = Map.empty
           \<and> cullCallbacks plod = []
           \<and> databaseOptions plod = None"
proof -
  have nlt: "\<not> getLOD key < maxLevel this"
    using assms by simp
  show ?thesis
    by (simp add: createPagedNode_def Let_def nlt setRange_def addChild_def PagedLOD_new_def
        visible_def split: prod.splits option.splits)
qed

theorem createPagedNode_at_maxLevel_witness:
  "maxLevel examplePager \<le> getLOD key_30
   \<and> (\<exists>plod. fst (createPagedNode examplePager key_30 None 0) = Some plod
         \<and> ranges plod = [0 \<mapsto> (0, FLT_MAX)]
         \<and> fileNames plod = Map.empty)"
proof -
  have h: "maxLevel examplePager \<le> getLOD key_30"
    by (simp add: examplePager_def SimplePager_new_def key_30_def)
  from createPagedNode_at_maxLevel [OF h, of None 0] h show ?thesis
    by blast
qed



text \<open>
  C4. For every key whose level is below \<open>minLevel\<close>, \<open>createPagedNode\<close> leaves the
  builder's state as it was (the builder is not called) and slot 0 holds the empty
  placeholder; if the level is also below \<open>maxLevel\<close>, the child-load request for the key
  is registered all the same: the file name of slot 1, the progress updater and the
  options that carry the pager.
\<close>

theorem createPagedNode_below_minLevel:
  assumes "getLOD key < minLevel this"
  shows "snd (createPagedNode this key prog s) = s
         \<and> (\<exists>plod. fst (createPagedNode this key prog s) = Some plod
              \<and> children plod = [EmptyGroup]
              \<and> (getLOD key < maxLevel this \<longrightarrow>
                    fileNames plod 1 = Some (key_uri key)
                    \<and> cullCallbacks plod = [ProgressUpdater_new (Some (progressMaster this))]
                    \<and> (\<exists>opts objs. databaseOptions plod = Some opts
                          \<and> userDataContainer opts = Some objs
                          \<and> PagerObject this \<in> set objs)))"
proof -
  have nb: "\<not> minLevel this \<le> getLOD key"
    using assms by simp
  show ?thesis
    by (auto simp: createPagedNode_def Let_def nb setRange_def setFileName_def addChild_def
        addCullCallback_def PagedLOD_new_def addUserObject_def Options_new_def
        split: option.splits)
qed

theorem createPagedNode_below_minLevel_witness:
  "getLOD key_1_2_3 < minLevel (examplePager\<lparr>minLevel := 5\<rparr>)
   \<and> getLOD key_1_2_3 < maxLevel (examplePager\<lparr>minLevel := 5\<rparr>)
   \<and> snd (createPagedNode (examplePager\<lparr>minLevel := 5\<rparr>) key_1_2_3 None 0) = 0
   \<and> (\<exists>plod. fst (createPagedNode (examplePager\<lparr>minLevel := 5\<rparr>) key_1_2_3 None 0) = Some plod
         \<and> children plod = [EmptyGroup]
         \<and> fileNames plod 1 = Some (key_uri key_1_2_3))"
proof -
  have h1: "getLOD key_1_2_3 < minLevel (examplePager\<lparr>minLevel := 5\<rparr>)"
    by (simp add: key_1_2_3_def)
  have h2: "getLOD key_1_2_3 < maxLevel (examplePager\<lparr>minLevel := 5\<rparr>)"
    by (simp add: examplePager_def SimplePager_new_def key_1_2_3_def)
  from createPagedNode_below_minLevel [OF h1, of None 0] h1 h2 show ?thesis
    by blast
qed





section \<open>Loading the children of a key\<close>

lemma loadKey_with_unfold:
  fixes build :: "TileKey \<Rightarrow> 's \<Rightarrow> 'n option \<times> 's" and key :: TileKey and s :: 's
  defines "r0 \<equiv> build (createChildKey key 0) s"
  defines "r1 \<equiv> build (createChildKey key 1) (snd r0)"
  defines "r2 \<equiv> build (createChildKey key 2) (snd r1)"
  defines "r3 \<equiv> build (createChildKey key 3) (snd r2)"
  shows "loadKey_with build key s =
           (if present (fst r0) @ present (fst r1) @ present (fst r2) @ present (fst r3) = []
            then None
            else Some (Group (present (fst r0) @ present (fst r1) @ present (fst r2)
                              @ present (fst r3))),
            snd r3)"
proof -
  have p: "\<And>r grp. (case r of None \<Rightarrow> grp | Some p \<Rightarrow> grp @ [p]) = grp @ present r"
    by (simp split: option.splits)
  show ?thesis
    by (simp add: loadKey_with_def Let_def p split_beta r0_def r1_def r2_def r3_def)
qed

lemma present_length: "length (present r) \<le> 1"
  by (cases r) simp_all

text \<open>
  C9. For every key, \<open>loadKey\<close> asks for the paged node of each of the four canonical
  children, in the order 0 to 3, passing the state on from one call to the next; the
  group holds the results that are not null, in that order, so at most four; and if all
  four are null the result is null.
\<close>

theorem loadKey_children:
  fixes build :: "TileKey \<Rightarrow> 's \<Rightarrow> 'n option \<times> 's" and key :: TileKey and s :: 's
  defines "r0 \<equiv> build (createChildKey key 0) s"
  defines "r1 \<equiv> build (createChildKey key 1) (snd r0)"
  defines "r2 \<equiv> build (createChildKey key 2) (snd r1)"
  defines "r3 \<equiv> build (createChildKey key 3) (snd r2)"
  defines "subtrees \<equiv> present (fst r0) @ present (fst r1) @ present (fst r2) @ present (fst r3)"
  shows "loadKey_with build key s =
           (if subtrees = [] then None else Some (Group subtrees), snd r3)
         \<and> length subtrees \<le> 4
         \<and> (fst r0 = None \<and> fst r1 = None \<and> fst r2 = None \<and> fst r3 = None
              \<longrightarrow> fst (loadKey_with build key s) = None)
         \<and> loadKey this key prog = loadKey_with (\<lambda>k. createPagedNode this k prog) key"
proof -
  have eq: "loadKey_with build key s =
           (if subtrees = [] then None else Some (Group subtrees), snd r3)"
    unfolding subtrees_def r0_def r1_def r2_def r3_def by (rule loadKey_with_unfold)
  have l4: "length subtrees \<le> 4"
    using present_length [of "fst r0"] present_length [of "fst r1"]
      present_length [of "fst r2"] present_length [of "fst r3"]
    by (simp add: subtrees_def)
  have none: "fst r0 = None \<and> fst r1 = None \<and> fst r2 = None \<and> fst r3 = None
              \<longrightarrow> fst (loadKey_with build key s) = None"
    using eq by (simp add: subtrees_def)
  have "loadKey this key prog = loadKey_with (\<lambda>k. createPagedNode this k prog) key"
    by (intro ext) (simp add: loadKey_def)
  with eq l4 none show ?thesis by blast
qed

theorem loadKey_children_witness:
  "fst ((\<lambda>k s. (None :: nat option, s)) (createChildKey key_1_2_3 0) (0 :: nat)) = None
   \<and> fst (loadKey_with (\<lambda>k s. (None :: nat option, s)) key_1_2_3 (0 :: nat)) = None"
  using loadKey_children [where build = "\<lambda>k s. (None :: nat option, s)" and key = key_1_2_3
      and s = "0 :: nat" and this = examplePager and prog = None]
  by simp

section \<open>Tile identifiers and the pseudo-loader\<close>

lemma of_char_digit_char: "d < 10 \<Longrightarrow> (of_char (digit_char d) :: nat) = 48 + d"
  by (simp add: digit_char_def)

lemma isdigit_digit_char: "d < 10 \<Longrightarrow> isdigit (digit_char d)"
  by (simp add: isdigit_def of_char_digit_char)

lemma digit_char_plain:
  assumes "d < 10"
  shows "\<not> isspace (digit_char d)" and "digit_char d \<noteq> CHR ''-''" and "digit_char d \<noteq> CHR ''+''"
proof -
  have v: "(of_char (digit_char d) :: nat) = 48 + d"
    using assms by (rule of_char_digit_char)
  have "(of_char c :: nat) < 48" if "isspace c" for c
    using that by (auto simp: isspace_def)
  with v show "\<not> isspace (digit_char d)" by fastforce
  have "(of_char CHR ''-'' :: nat) = 45" and "(of_char CHR ''+'' :: nat) = 43"
    by simp_all
  with v show "digit_char d \<noteq> CHR ''-''" and "digit_char d \<noteq> CHR ''+''"
    by fastforce+
qed

lemma scan_digits_to_digits:
  "scan_digits acc (to_digits n @ rest) = scan_digits (acc * 10 ^ length (to_digits n) + n) rest"
proof (induction n arbitrary: acc rest rule: to_digits.induct)
  case (1 n)
  show ?case
  proof (cases "n < 10")
    case True
    then show ?thesis
      by (simp add: isdigit_digit_char of_char_digit_char mult.commute)
  next
    case False
    let ?l = "length (to_digits (n div 10))"
    have d: "n mod 10 < 10" by simp
    have "scan_digits acc (to_digits n @ rest)
            = scan_digits acc (to_digits (n div 10) @ (digit_char (n mod 10) # rest))"
      using False by (subst to_digits.simps) simp
    also have "\<dots> = scan_digits (acc * 10 ^ ?l + n div 10) (digit_char (n mod 10) # rest)"
      using False by (rule "1.IH")
    also have "\<dots> = scan_digits (10 * (acc * 10 ^ ?l + n div 10) + n mod 10) rest"
      using d by (simp add: isdigit_digit_char of_char_digit_char del: to_digits.simps)
    also have "10 * (acc * 10 ^ ?l + n div 10) + n mod 10 = acc * 10 ^ Suc ?l + n"
      by (simp add: algebra_simps)
    also have "Suc ?l = length (to_digits n)"
      using False by (subst (2) to_digits.simps) simp
    finally show ?thesis .
  qed
qed

lemma to_digits_head: "\<exists>d cs. d < 10 \<and> to_digits n = digit_char d # cs"
proof (induction n rule: to_digits.induct)
  case (1 n)
  show ?case
  proof (cases "n < 10")
    case True
    then show ?thesis by auto
  next
    case False
    with "1.IH" obtain d cs where "d < 10" and "to_digits (n div 10) = digit_char d # cs"
      by blast
    then have "to_digits n = digit_char d # (cs @ [digit_char (n mod 10)])"
      using False by (subst to_digits.simps) simp
    with \<open>d < 10\<close> show ?thesis by blast
  qed
qed

lemma scan_d_to_digits:
  assumes "rest = [] \<or> \<not> isdigit (hd rest)"
  shows "scan_d (to_digits n @ rest) = Some (int n, rest)"
proof -
  obtain d cs where d: "d < 10" and td: "to_digits n = digit_char d # cs"
    using to_digits_head by blast
  have stop: "scan_digits n rest = (n, rest)"
    using assms by (cases rest) auto
  have "scan_digits 0 (to_digits n @ rest) = (n, rest)"
    using scan_digits_to_digits [of 0 n rest] stop by simp
  then have sd: "scan_digits 0 (digit_char d # cs @ rest) = (n, rest)"
    using td by simp
  have "scan_d (digit_char d # cs @ rest) = Some (int n, rest)"
    unfolding scan_d_def scan_sign_def
    using digit_char_plain [OF d] isdigit_digit_char [OF d] sd
    by (simp del: scan_digits.simps)
  then show ?thesis
    using td by simp
qed

lemma show_unsigned_scan:
  assumes "rest = [] \<or> \<not> isdigit (hd rest)"
  shows "scan_d (show_unsigned w @ rest) = Some (uint w, rest)"
  using scan_d_to_digits [OF assms, of "unat w"] by (simp add: show_unsigned_def)

lemma sscanf_key_uri:
  "sscanf_key (key_uri key) = (Some (getLOD key), Some (getTileX key), Some (getTileY key))"
proof -
  let ?ty = "show_unsigned (getTileY key) @ CHR ''.'' # pseudo_extension"
  let ?tx = "show_unsigned (getTileX key) @ CHR ''_'' # ?ty"
  have nd: "\<not> isdigit CHR ''_''" "\<not> isdigit CHR ''.''"
    by (simp_all add: isdigit_def)
  have u: "key_uri key = show_unsigned (getLOD key) @ CHR ''_'' # ?tx"
    by (simp add: key_uri_def)
  have 1: "scan_d (show_unsigned (getLOD key) @ CHR ''_'' # ?tx)
             = Some (uint (getLOD key), CHR ''_'' # ?tx)"
    using nd by (intro show_unsigned_scan) simp
  have 2: "scan_d ?tx = Some (uint (getTileX key), CHR ''_'' # ?ty)"
    using nd by (intro show_unsigned_scan) simp
  have 3: "scan_d ?ty = Some (uint (getTileY key), CHR ''.'' # pseudo_extension)"
    using nd by (intro show_unsigned_scan) simp
  show ?thesis
    unfolding u sscanf_key_def by (simp add: 1 2 3 scan_literal_def)
qed

lemma tolower_pseudo_extension: "map tolower pseudo_extension = pseudo_extension"
  by (simp add: pseudo_extension_def tolower_def)

lemma takeWhile_stop:
  "\<forall>x \<in> set xs. P x \<Longrightarrow> \<not> P y \<Longrightarrow> takeWhile P (xs @ y # ys) = xs"
  by (induction xs) auto

lemma getFileExtension_append:
  assumes "CHR ''.'' \<notin> set ext" and "CHR ''/'' \<notin> set ext" and "CHR 0x5C \<notin> set ext"
  shows "getFileExtension (a @ ''.'' @ ext) = ext"
proof -
  have "\<forall>c \<in> set (rev ext). c \<noteq> CHR ''.''"
    using assms(1) by auto
  then have "takeWhile (\<lambda>c. c \<noteq> CHR ''.'') (rev ext @ CHR ''.'' # rev a) = rev ext"
    by (rule takeWhile_stop) simp
  then show ?thesis
    using assms by (simp add: getFileExtension_def)
qed

lemma key_uri_accepted: "acceptsExtension (getLowerCaseFileExtension (key_uri key))"
proof -
  have "key_uri key = (show_unsigned (getLOD key) @ ''_'' @ show_unsigned (getTileX key) @ ''_'' @
     show_unsigned (getTileY key)) @ ''.'' @ pseudo_extension"
    by (simp add: key_uri_def)
  moreover have "CHR ''.'' \<notin> set pseudo_extension" "CHR ''/'' \<notin> set pseudo_extension"
    "CHR 0x5C \<notin> set pseudo_extension"
    by (simp_all add: pseudo_extension_def)
  ultimately have "getFileExtension (key_uri key) = pseudo_extension"
    using getFileExtension_append by metis
  then show ?thesis
    by (simp add: acceptsExtension_def getLowerCaseFileExtension_def tolower_pseudo_extension)
qed

lemma readNode_valid_context:
  assumes "acceptsExtension (getLowerCaseFileExtension uri)"
    and "sscanf_key uri = (Some l, Some x, Some y)"
    and "userDataContainer opts = Some objs"
    and "getUserObject pagerName objs = Some (PagerObject pager)"
  shows "readNode uri (Some opts) s =
           (Inr (FILE_LOADED (fst (loadKey pager
                   \<lparr>getLOD = l, getTileX = x, getTileY = y, profile = getProfile pager\<rparr>
                   (map_option progress (as_ProgressUpdater (getUserObject updaterName objs))) s))),
            snd (loadKey pager
                   \<lparr>getLOD = l, getTileX = x, getTileY = y, profile = getProfile pager\<rparr>
                   (map_option progress (as_ProgressUpdater (getUserObject updaterName objs))) s))"
  using assms by (simp add: readNode_def Let_def split_beta)

lemma createPagedNode_registers:
  assumes "fst (createPagedNode this key prog s) = Some plod"
    and "fileNames plod 1 = Some uri"
  shows "uri = key_uri key
         \<and> cullCallbacks plod = [ProgressUpdater_new (Some (progressMaster this))]
         \<and> (\<exists>opts. databaseOptions plod = Some opts
               \<and> userDataContainer opts =
                   Some [PagerObject this,
                         UpdaterObject (ProgressUpdater_new (Some (progressMaster this)))])"
proof (cases "createNode this key prog s")
  case (Pair node0 s')
  show ?thesis
    using assms Pair
    by (cases node0)
      (auto simp: createPagedNode_def Let_def setRange_def setFileName_def addChild_def
        addCullCallback_def PagedLOD_new_def addUserObject_def Options_new_def
        split: if_splits option.splits)
qed

lemma names_differ: "pagerName \<noteq> updaterName"
  by (simp add: pagerName_def updaterName_def)

lemma TileKey_eq:
  "profile key = p \<Longrightarrow>
     \<lparr>getLOD = getLOD key, getTileX = getTileX key, getTileY = getTileY key, profile = p\<rparr> = key"
  by (cases key) simp

lemma digit_char_123:
  "digit_char (Suc 0) = CHR ''1''" "digit_char 2 = CHR ''2''" "digit_char 3 = CHR ''3''"
  by (rule of_char_eqI [where ?'a = nat], simp add: digit_char_def)+

lemma key_uri_1_2_3:
  assumes "getLOD key = 1" and "getTileX key = 2" and "getTileY key = 3"
  shows "key_uri key = ''1_2_3.osgearth_pseudo_simple''"
  using assms
  by (simp add: key_uri_def show_unsigned_def to_digits.simps digit_char_123
      pseudo_extension_def)

lemma createChildKey_1_2_3:
  assumes "getLOD key = 1" and "getTileX key = 2" and "getTileY key = 3"
  shows "createChildKey key 0 = \<lparr>getLOD = 2, getTileX = 4, getTileY = 6, profile = profile key\<rparr>"
    and "createChildKey key 1 = \<lparr>getLOD = 2, getTileX = 5, getTileY = 6, profile = profile key\<rparr>"
    and "createChildKey key 2 = \<lparr>getLOD = 2, getTileX = 4, getTileY = 7, profile = profile key\<rparr>"
    and "createChildKey key 3 = \<lparr>getLOD = 2, getTileX = 5, getTileY = 7, profile = profile key\<rparr>"
  using assms by (simp_all add: createChildKey_def)

text \<open>
  C5. Identifiers of deferred loads round-trip. For every key of the pager whose node has
  children, the identifier \<open>createPagedNode\<close> registers is
  \<open><level>_<x>_<y>.osgearth_pseudo_simple\<close>; scanning it gives back the same level, x and
  y; and the pseudo-loader, given that identifier and the options registered with it,
  calls \<open>loadKey\<close> of the same pager with exactly that key and the registered progress
  callback. For the key \<open>(1, 2, 3)\<close> the identifier is \<open>1_2_3.osgearth_pseudo_simple\<close> and
  the result is the group of the paged nodes of \<open>(2,4,6)\<close>, \<open>(2,5,6)\<close>, \<open>(2,4,7)\<close>,
  \<open>(2,5,7)\<close>, in this order.
\<close>

theorem deferred_load_roundtrip:
  fixes this :: "'s SimplePager" and s s' :: 's
  assumes name: "getName this = pagerName"
    and prof: "profile key = getProfile this"
    and node: "fst (createPagedNode this key prog s) = Some plod"
    and reg: "fileNames plod 1 = Some uri"
  defines "handle \<equiv> MyProgressCallback_new (Some (progressMaster this))"
  shows "uri = key_uri key
    \<and> sscanf_key uri = (Some (getLOD key), Some (getTileX key), Some (getTileY key))
    \<and> cullCallbacks plod = [\<lparr>progress = handle\<rparr>]
    \<and> readNode uri (databaseOptions plod) s' =
         (Inr (FILE_LOADED (fst (loadKey this key (Some handle) s'))),
          snd (loadKey this key (Some handle) s'))
    \<and> (getLOD key = 1 \<and> getTileX key = 2 \<and> getTileY key = 3 \<longrightarrow>
         uri = ''1_2_3.osgearth_pseudo_simple''
         \<and> (let child = (\<lambda>x y. \<lparr>getLOD = 2, getTileX = x, getTileY = y,
                                  profile = getProfile this\<rparr>);
                 r0 = createPagedNode this (child 4 6) (Some handle) s';
                 r1 = createPagedNode this (child 5 6) (Some handle) (snd r0);
                 r2 = createPagedNode this (child 4 7) (Some handle) (snd r1);
                 r3 = createPagedNode this (child 5 7) (Some handle) (snd r2)
             in readNode uri (databaseOptions plod) s' =
                  (Inr (FILE_LOADED (Some (Group (present (fst r0) @ present (fst r1)
                                                   @ present (fst r2) @ present (fst r3))))),
                   snd r3)
                \<and> length (present (fst r0) @ present (fst r1) @ present (fst r2)
                            @ present (fst r3)) = 4))"
proof -
  let ?upd = "ProgressUpdater_new (Some (progressMaster this))"
  from createPagedNode_registers [OF node reg]
  obtain opts where uri: "uri = key_uri key"
    and cb: "cullCallbacks plod = [?upd]"
    and opts: "databaseOptions plod = Some opts"
    and objs: "userDataContainer opts = Some [PagerObject this, UpdaterObject ?upd]"
    by blast
  have upd: "?upd = \<lparr>progress = handle\<rparr>"
    by (simp add: ProgressUpdater_new_def handle_def)
  have scan: "sscanf_key uri = (Some (getLOD key), Some (getTileX key), Some (getTileY key))"
    unfolding uri by (rule sscanf_key_uri)
  have acc: "acceptsExtension (getLowerCaseFileExtension uri)"
    unfolding uri by (rule key_uri_accepted)
  have pg: "getUserObject pagerName [PagerObject this, UpdaterObject ?upd] = Some (PagerObject this)"
    using name by (simp add: getUserObject_def)
  have up: "map_option progress (as_ProgressUpdater
              (getUserObject updaterName [PagerObject this, UpdaterObject ?upd])) = Some handle"
    using name names_differ by (simp add: getUserObject_def upd)
  have k: "\<lparr>getLOD = getLOD key, getTileX = getTileX key, getTileY = getTileY key,
            profile = getProfile this\<rparr> = key"
    using prof by (rule TileKey_eq)
  have rd: "readNode uri (databaseOptions plod) s' =
         (Inr (FILE_LOADED (fst (loadKey this key (Some handle) s'))),
          snd (loadKey this key (Some handle) s'))"
    using readNode_valid_context [OF acc scan objs pg, of s'] by (simp add: opts up k)
  have scen: "uri = ''1_2_3.osgearth_pseudo_simple''
         \<and> (let child = (\<lambda>x y. \<lparr>getLOD = 2, getTileX = x, getTileY = y,
                                  profile = getProfile this\<rparr>);
                 r0 = createPagedNode this (child 4 6) (Some handle) s';
                 r1 = createPagedNode this (child 5 6) (Some handle) (snd r0);
                 r2 = createPagedNode this (child 4 7) (Some handle) (snd r1);
                 r3 = createPagedNode this (child 5 7) (Some handle) (snd r2)
             in readNode uri (databaseOptions plod) s' =
                  (Inr (FILE_LOADED (Some (Group (present (fst r0) @ present (fst r1)
                                                   @ present (fst r2) @ present (fst r3))))),
                   snd r3)
                \<and> length (present (fst r0) @ present (fst r1) @ present (fst r2)
                            @ present (fst r3)) = 4)"
    if lv: "getLOD key = 1" "getTileX key = 2" "getTileY key = 3"
  proof -
    let ?b = "\<lambda>k. createPagedNode this k (Some handle)"
    let ?child = "\<lambda>x y. \<lparr>getLOD = 2, getTileX = x, getTileY = y, profile = getProfile this\<rparr>"
    let ?r0 = "?b (?child 4 6) s'"
    let ?r1 = "?b (?child 5 6) (snd ?r0)"
    let ?r2 = "?b (?child 4 7) (snd ?r1)"
    let ?r3 = "?b (?child 5 7) (snd ?r2)"
    have some: "\<exists>p. fst (?b k t) = Some p" for k t
      using createPagedNode_Some [of this k "Some handle" t] by blast
    obtain p0 where p0: "fst ?r0 = Some p0" using some by blast
    obtain p1 where p1: "fst ?r1 = Some p1" using some by blast
    obtain p2 where p2: "fst ?r2 = Some p2" using some by blast
    obtain p3 where p3: "fst ?r3 = Some p3" using some by blast
    have ck: "createChildKey key 0 = ?child 4 6" "createChildKey key 1 = ?child 5 6"
      "createChildKey key 2 = ?child 4 7" "createChildKey key 3 = ?child 5 7"
      using createChildKey_1_2_3 [OF lv] prof by simp_all
    have lk: "loadKey this key (Some handle) s' =
        (Some (Group (present (fst ?r0) @ present (fst ?r1) @ present (fst ?r2)
                      @ present (fst ?r3))), snd ?r3)"
      unfolding loadKey_def
      using loadKey_with_unfold [of ?b key s'] p0 p1 p2 p3
      by (simp only: ck) simp
    have len: "length (present (fst ?r0) @ present (fst ?r1) @ present (fst ?r2)
                      @ present (fst ?r3)) = 4"
      by (simp add: p0 p1 p2 p3)
    have "uri = ''1_2_3.osgearth_pseudo_simple''"
      unfolding uri using lv by (rule key_uri_1_2_3)
    with rd lk len show ?thesis
      by (simp add: Let_def)
  qed
  have cb': "cullCallbacks plod = [\<lparr>progress = handle\<rparr>]"
    using cb upd by simp
  from uri scan cb' rd scen show ?thesis
    by blast
qed


theorem deferred_load_roundtrip_witness:
  "getName examplePager = pagerName
   \<and> profile key_1_2_3 = getProfile examplePager
   \<and> (\<exists>plod. fst (createPagedNode examplePager key_1_2_3 None 0) = Some plod
         \<and> fileNames plod 1 = Some ''1_2_3.osgearth_pseudo_simple''
         \<and> sscanf_key ''1_2_3.osgearth_pseudo_simple'' = (Some 1, Some 2, Some 3)
         \<and> readNode ''1_2_3.osgearth_pseudo_simple'' (databaseOptions plod) 7 =
              (Inr (FILE_LOADED (fst (loadKey examplePager key_1_2_3
                                        (Some (MyProgressCallback_new (Some 0))) 7))),
               snd (loadKey examplePager key_1_2_3 (Some (MyProgressCallback_new (Some 0))) 7)))"
proof -
  have name: "getName examplePager = pagerName"
    by (simp add: examplePager_def SimplePager_new_def)
  have prof: "profile key_1_2_3 = getProfile examplePager"
    by (simp add: examplePager_def SimplePager_new_def key_1_2_3_def)
  have lv: "getLOD key_1_2_3 = 1" "getTileX key_1_2_3 = 2" "getTileY key_1_2_3 = 3"
    by (simp_all add: key_1_2_3_def)
  have u: "key_uri key_1_2_3 = ''1_2_3.osgearth_pseudo_simple''"
    using lv by (rule key_uri_1_2_3)
  have m: "progressMaster examplePager = 0"
    by (simp add: examplePager_def SimplePager_new_def)
  obtain plod where node: "fst (createPagedNode examplePager key_1_2_3 None 0) = Some plod"
    using createPagedNode_Some [of examplePager key_1_2_3 None 0] by blast
  have reg: "fileNames plod 1 = Some ''1_2_3.osgearth_pseudo_simple''"
    using node unfolding u [symmetric]
    by (auto simp: createPagedNode_def Let_def examplePager_def SimplePager_new_def
        countingBuilder_def key_1_2_3_def setRange_def setFileName_def addChild_def
        addCullCallback_def PagedLOD_new_def)
  from deferred_load_roundtrip [OF name prof node reg, of 7] name prof node reg lv m
  show ?thesis
    by auto
qed

lemma of_char_tolower:
  "(of_char (tolower c) :: nat)
     = (if 65 \<le> (of_char c :: nat) \<and> (of_char c :: nat) \<le> 90 then of_char c + 32 else of_char c)"
  by (simp add: tolower_def)

lemma tolower_idem: "tolower (tolower c) = tolower c"
  by (rule of_char_eqI [where ?'a = nat]) (simp add: of_char_tolower)

lemma accepts_iff:
  "acceptsExtension (getLowerCaseFileExtension uri)
     = (map tolower (getFileExtension uri) = pseudo_extension)"
proof -
  have "tolower \<circ> tolower = tolower"
    by (rule ext) (simp add: tolower_idem)
  then show ?thesis
    by (simp add: acceptsExtension_def getLowerCaseFileExtension_def)
qed

lemma readNode_null_context:
  assumes "map tolower (getFileExtension uri) = pseudo_extension"
  shows "readNode uri None s = (Inl NullPointerDereference, s)"
    and "userDataContainer opts = None \<Longrightarrow>
           readNode uri (Some opts) s = (Inl NullPointerDereference, s)"
  using assms by (simp_all add: readNode_def accepts_iff split_beta)

lemma upper_case_extension:
  "getFileExtension ''1_2_3.OSGEARTH_PSEUDO_SIMPLE'' = ''OSGEARTH_PSEUDO_SIMPLE''"
  using getFileExtension_append [of "''OSGEARTH_PSEUDO_SIMPLE''" "''1_2_3''"]
  by simp

lemma upper_case_lowered:
  "map tolower ''OSGEARTH_PSEUDO_SIMPLE'' = pseudo_extension"
proof -
  have "map (of_char :: char \<Rightarrow> nat) (map tolower ''OSGEARTH_PSEUDO_SIMPLE'')
          = map of_char pseudo_extension"
    by (simp add: of_char_tolower pseudo_extension_def)
  moreover have "inj (of_char :: char \<Rightarrow> nat)"
    by (rule injI) simp
  ultimately show ?thesis
    by (simp only: inj_map_eq_map)
qed

lemma upper_case_scan:
  "sscanf_key ''1_2_3.OSGEARTH_PSEUDO_SIMPLE'' = (Some 1, Some 2, Some 3)"
  by code_simp

text \<open>
  C6, as the claim is worded. The extension is compared in lower case, so a request whose
  suffix differs from the registered tag in case only is handled: with a context that
  carries the pager, \<open>1_2_3.OSGEARTH_PSEUDO_SIMPLE\<close> loads the children of \<open>(1, 2, 3)\<close>.
\<close>

theorem readNode_suffix_counterexample:
  "getFileExtension ''1_2_3.OSGEARTH_PSEUDO_SIMPLE'' \<noteq> pseudo_extension
   \<and> fst (readNode ''1_2_3.OSGEARTH_PSEUDO_SIMPLE'' (Some exampleContext) 0)
       = Inr (FILE_LOADED (fst (loadKey examplePager key_1_2_3 None 0)))
   \<and> fst (readNode ''1_2_3.OSGEARTH_PSEUDO_SIMPLE'' (Some exampleContext) 0)
       \<noteq> Inr FILE_NOT_HANDLED"
proof -
  have ne: "getFileExtension ''1_2_3.OSGEARTH_PSEUDO_SIMPLE'' \<noteq> pseudo_extension"
    by (simp add: upper_case_extension pseudo_extension_def)
  have acc: "acceptsExtension (getLowerCaseFileExtension ''1_2_3.OSGEARTH_PSEUDO_SIMPLE'')"
    unfolding accepts_iff upper_case_extension by (rule upper_case_lowered)
  have objs: "userDataContainer exampleContext = Some [PagerObject examplePager]"
    by (simp add: exampleContext_def addUserObject_def Options_new_def)
  have pg: "getUserObject pagerName [PagerObject examplePager] = Some (PagerObject examplePager)"
    by (simp add: getUserObject_def examplePager_def SimplePager_new_def)
  have up: "map_option progress (as_ProgressUpdater
              (getUserObject updaterName [PagerObject examplePager])) = None"
    using names_differ
    by (simp add: getUserObject_def examplePager_def SimplePager_new_def)
  have k: "\<lparr>getLOD = 1, getTileX = 2, getTileY = 3, profile = getProfile examplePager\<rparr>
             = key_1_2_3"
    by (simp add: key_1_2_3_def examplePager_def SimplePager_new_def)
  have "fst (readNode ''1_2_3.OSGEARTH_PSEUDO_SIMPLE'' (Some exampleContext) 0)
       = Inr (FILE_LOADED (fst (loadKey examplePager key_1_2_3 None 0)))"
    using readNode_valid_context [OF acc upper_case_scan objs pg, of 0]
    by (simp add: up k)
  with ne show ?thesis
    by simp
qed

text \<open>
  C6, amended. A request whose suffix, in lower case, is not the registered tag is "not
  handled"; a request whose suffix matches in lower case and whose options carry a
  user-data container without the pager is "error in reading"; and the two outcomes are
  different values.
\<close>

theorem readNode_failure_outcomes:
  fixes s :: 's
  shows "(map tolower (getFileExtension uri) \<noteq> pseudo_extension \<longrightarrow>
            readNode uri options s = (Inr FILE_NOT_HANDLED, s))
   \<and> (map tolower (getFileExtension uri) = pseudo_extension
        \<and> userDataContainer opts = Some objs
        \<and> as_SimplePager (getUserObject pagerName objs) = None \<longrightarrow>
            readNode uri (Some opts) s = (Inr ERROR_IN_READING_FILE, s))
   \<and> Inr FILE_NOT_HANDLED \<noteq> (Inr ERROR_IN_READING_FILE :: fault + 's ReadResult)"
  by (simp add: readNode_def accepts_iff split_beta)

theorem readNode_failure_outcomes_witness:
  "map tolower (getFileExtension ''1_2_3.txt'') \<noteq> pseudo_extension
   \<and> readNode ''1_2_3.txt'' (Some exampleContext) 0 = (Inr FILE_NOT_HANDLED, 0)
   \<and> map tolower (getFileExtension ''1_2_3.osgearth_pseudo_simple'') = pseudo_extension
   \<and> userDataContainer emptyContext = Some [OtherObject ''unrelated'']
   \<and> as_SimplePager (getUserObject pagerName [OtherObject ''unrelated'']) = None
   \<and> readNode ''1_2_3.osgearth_pseudo_simple'' (Some emptyContext) 0
       = (Inr ERROR_IN_READING_FILE, 0)"
proof -
  have e1: "getFileExtension ''1_2_3.txt'' = ''txt''"
    using getFileExtension_append [of "''txt''" "''1_2_3''"] by simp
  have h1: "map tolower (getFileExtension ''1_2_3.txt'') \<noteq> pseudo_extension"
    by (simp add: e1 pseudo_extension_def)
  have e2: "getFileExtension ''1_2_3.osgearth_pseudo_simple'' = pseudo_extension"
    using getFileExtension_append [of pseudo_extension "''1_2_3''"]
    by (simp add: pseudo_extension_def)
  have h2: "map tolower (getFileExtension ''1_2_3.osgearth_pseudo_simple'') = pseudo_extension"
    by (simp add: e2 tolower_pseudo_extension)
  have h3: "userDataContainer emptyContext = Some [OtherObject ''unrelated'']"
    by (simp add: emptyContext_def addUserObject_def Options_new_def)
  have h4: "as_SimplePager (getUserObject pagerName [OtherObject ''unrelated'']) = None"
    by (simp add: getUserObject_def pagerName_def)
  have r1: "readNode ''1_2_3.txt'' (Some exampleContext) 0 = (Inr FILE_NOT_HANDLED, 0)"
    using readNode_failure_outcomes [where uri = "''1_2_3.txt''"
        and options = "Some exampleContext" and s = "0 :: nat" and opts = emptyContext
        and objs = "[OtherObject ''unrelated'']"] h1
    by blast
  have r2: "readNode ''1_2_3.osgearth_pseudo_simple'' (Some emptyContext) 0
              = (Inr ERROR_IN_READING_FILE, 0)"
    using readNode_failure_outcomes [where uri = "''1_2_3.osgearth_pseudo_simple''"
        and options = "Some exampleContext" and s = "0 :: nat" and opts = emptyContext
        and objs = "[OtherObject ''unrelated'']"] h2 h3 h4
    by blast
  from h1 h2 h3 h4 r1 r2 show ?thesis
    by blast
qed

end
